theory Spec2Isabelle
  imports Complex_Main
begin

section \<open>Python values used by the converter\<close>

text \<open>
  The converter is the Python class \<open>MidiConverter\<close> of \<open>midi_converter_script.py\<close>.
  Python integers are unbounded, so they are \<open>int\<close>. A Python string is a \<open>string\<close>;
  a \<open>char\<close> stands for a code point below 256 (ASCII and Latin-1). The rhythm values of
  the section table are the floats 0.5, 1.0, 2.0 and 4.0; they are modelled as rationals,
  on which the product with 480 is exact, as it is on these floats. A rational is a finite
  number: the floats \<open>nan\<close> and \<open>inf\<close>, on which \<open>int\<close> raises, are outside the model.

  An exception is a value: every function that can raise returns \<open>exn + 'a\<close>, with
  \<open>Inl\<close> for the exception raised.
\<close>

datatype exn = ValueError | IndexError | ZeroDivisionError | KeyError

text \<open>
  \<open>str.isdigit\<close> on one character. Below code point 256 it holds for the ten decimal
  digits and for the superscript digits U+00B2, U+00B3 and U+00B9.
\<close>

definition isdigit :: "char \<Rightarrow> bool" where
  "isdigit c =
     (let n = (of_char c :: nat)
      in (48 \<le> n \<and> n \<le> 57) \<or> n = 178 \<or> n = 179 \<or> n = 185)"

text \<open>
  \<open>int(s)\<close> on a string of one character: the value of a decimal digit, and ValueError
  on anything else (the superscript digits included).
\<close>

definition py_int :: "char \<Rightarrow> exn + int" where
  "py_int c =
     (let n = (of_char c :: nat)
      in if 48 \<le> n \<and> n \<le> 57 then Inr (int n - 48) else Inl ValueError)"

text \<open>\<open>xs[-1]\<close>: the last element, IndexError on the empty sequence.\<close>

definition py_last :: "'a list \<Rightarrow> exn + 'a" where
  "py_last xs = (if xs = [] then Inl IndexError else Inr (last xs))"

text \<open>\<open>d.get(k, default)\<close> on a dictionary.\<close>

definition dict_get :: "('k \<rightharpoonup> 'v) \<Rightarrow> 'k \<Rightarrow> 'v \<Rightarrow> 'v" where
  "dict_get d k dflt = (case d k of None \<Rightarrow> dflt | Some v \<Rightarrow> v)"

text \<open>\<open>int(x)\<close> on a number: truncation towards zero.\<close>

definition py_trunc :: "rat \<Rightarrow> int" where
  "py_trunc q = (if 0 \<le> q then \<lfloor>q\<rfloor> else \<lceil>q\<rceil>)"

text \<open>\<open>xs * n\<close> on a list: \<open>n\<close> copies, none when \<open>n\<close> is zero or negative.\<close>

definition py_repeat :: "'a list \<Rightarrow> int \<Rightarrow> 'a list" where
  "py_repeat xs n = concat (replicate (nat n) xs)"

text \<open>
  \<open>xs[:b]\<close>: the first \<open>b\<close> elements, and for a negative \<open>b\<close> all but the last
  \<open>-b\<close> elements.
\<close>

definition py_slice_to :: "'a list \<Rightarrow> int \<Rightarrow> 'a list" where
  "py_slice_to xs b =
     (if 0 \<le> b then take (nat b) xs else take (nat (int (length xs) + b)) xs)"

section \<open>The converter's tables\<close>

definition ticks_per_beat :: int where
  "ticks_per_beat = 480"

definition self_notes :: "string \<rightharpoonup> int" where
  "self_notes = map_of
     [(''C'', 60), (''C#'', 61), (''Db'', 61), (''D'', 62), (''D#'', 63), (''Eb'', 63),
      (''E'', 64), (''F'', 65), (''F#'', 66), (''Gb'', 66), (''G'', 67), (''G#'', 68),
      (''Ab'', 68), (''A'', 69), (''A#'', 70), (''Bb'', 70), (''B'', 71)]"

definition self_chords :: "string \<rightharpoonup> int list" where
  "self_chords = map_of
     [(''Dm'', [62, 65, 69]),
      (''Bb'', [70, 62, 65]),
      (''F'', [65, 69, 60]),
      (''C'', [60, 64, 67]),
      (''Gm'', [67, 70, 62]),
      (''A7'', [69, 61, 64, 67])]"

definition beats_to_ticks :: "rat \<Rightarrow> int" where
  "beats_to_ticks beats = py_trunc (beats * of_int ticks_per_beat)"

section \<open>The pitch resolver\<close>

text \<open>
  The body of the \<open>try\<close> block of \<open>note_name_to_midi\<close>: the last character is the
  octave when \<open>isdigit\<close> holds for it, and the note is everything before it.
\<close>

definition note_name_to_midi_try :: "string \<Rightarrow> exn + int" where
  "note_name_to_midi_try note_name =
     (case py_last note_name of
        Inl e \<Rightarrow> Inl e
      | Inr c \<Rightarrow>
          (case (if isdigit c
                 then (case py_int c of
                         Inl e \<Rightarrow> Inl e
                       | Inr octave \<Rightarrow> Inr (butlast note_name, octave))
                 else Inr (note_name, 4)) of
             Inl e \<Rightarrow> Inl e
           | Inr (note, octave) \<Rightarrow>
               (let base_note = dict_get self_notes note 60;
                    midi_note = base_note + (octave - 4) * 12
                in Inr (max 0 (min 127 midi_note)))))"

text \<open>
  \<open>note_name_to_midi\<close>: the two early returns, then the \<open>try\<close> block, whose handler
  catches ValueError and IndexError and returns 60; any other exception propagates.
\<close>

definition note_name_to_midi :: "string \<Rightarrow> exn + int" where
  "note_name_to_midi note_name =
     (if note_name = [] \<or> note_name = ''rest'' then Inr 60
      else if length note_name < 2 then Inr (dict_get self_notes note_name 60)
      else (case note_name_to_midi_try note_name of
              Inl ValueError \<Rightarrow> Inr 60
            | Inl IndexError \<Rightarrow> Inr 60
            | Inl e \<Rightarrow> Inl e
            | Inr midi_note \<Rightarrow> Inr midi_note))"

section \<open>Messages and tracks\<close>

text \<open>
  A track is the list of the messages appended to it so far. \<open>track.append\<close> is modelled
  by returning the extended list. The constructor \<open>Message\<close> of the mido library checks
  its arguments: the channel lies in 0..15 and the data bytes (note and velocity) in
  0..127, and it raises ValueError otherwise.
\<close>

datatype msg_type = note_on | note_off

record message =
  mtype :: msg_type
  channel :: int
  pitch :: int
  velocity :: int
  time :: int

definition Message :: "msg_type \<Rightarrow> int \<Rightarrow> int \<Rightarrow> int \<Rightarrow> int \<Rightarrow> exn + message" where
  "Message ty ch n vel t =
     (if 0 \<le> ch \<and> ch \<le> 15 \<and> 0 \<le> n \<and> n \<le> 127 \<and> 0 \<le> vel \<and> vel \<le> 127
      then Inr \<lparr>mtype = ty, channel = ch, pitch = n, velocity = vel, time = t\<rparr>
      else Inl ValueError)"

section \<open>Chord rendering\<close>

text \<open>
  The first inner loop of \<open>add_chord_progression\<close>: one \<open>note_on\<close> per note of the chord;
  the state is the track and \<open>current_time\<close>, which is 0 after the first note.
\<close>

fun chord_notes_on :: "int \<Rightarrow> int list \<Rightarrow> int \<Rightarrow> message list \<Rightarrow> exn + (message list \<times> int)" where
  "chord_notes_on vel [] current_time track = Inr (track, current_time)"
| "chord_notes_on vel (n # chord_notes) current_time track =
     (case Message note_on 0 n vel current_time of
        Inl e \<Rightarrow> Inl e
      | Inr m \<Rightarrow> chord_notes_on vel chord_notes 0 (track @ [m]))"

text \<open>The second inner loop: one \<open>note_off\<close> per note; the state is the track and \<open>hold_time\<close>.\<close>

fun chord_notes_off :: "int list \<Rightarrow> int \<Rightarrow> message list \<Rightarrow> exn + (message list \<times> int)" where
  "chord_notes_off [] hold_time track = Inr (track, hold_time)"
| "chord_notes_off (n # chord_notes) hold_time track =
     (case Message note_off 0 n 0 hold_time of
        Inl e \<Rightarrow> Inl e
      | Inr m \<Rightarrow> chord_notes_off chord_notes 0 (track @ [m]))"

text \<open>
  The outer loop over \<open>chord_sequence\<close>. A name that is not a key of \<open>self.chords\<close>
  leaves the track and \<open>current_time\<close> as they are.
\<close>

fun chord_loop :: "int \<Rightarrow> string list \<Rightarrow> int \<Rightarrow> message list \<Rightarrow> exn + message list" where
  "chord_loop vel [] current_time track = Inr track"
| "chord_loop vel (chord # chord_sequence) current_time track =
     (case self_chords chord of
        None \<Rightarrow> chord_loop vel chord_sequence current_time track
      | Some chord_notes \<Rightarrow>
          (case chord_notes_on vel chord_notes current_time track of
             Inl e \<Rightarrow> Inl e
           | Inr (track1, current_time1) \<Rightarrow>
               (case chord_notes_off chord_notes (beats_to_ticks 4) track1 of
                  Inl e \<Rightarrow> Inl e
                | Inr (track2, hold_time) \<Rightarrow> chord_loop vel chord_sequence 0 track2)))"

text \<open>
  \<open>chord_sequence = (chords * (bars // len(chords) + 1))[:bars]\<close>; the floor division
  raises ZeroDivisionError on an empty list of chords.
\<close>

definition chord_sequence :: "string list \<Rightarrow> int \<Rightarrow> exn + string list" where
  "chord_sequence chord_names bars =
     (if length chord_names = 0 then Inl ZeroDivisionError
      else Inr (py_slice_to
                  (py_repeat chord_names (bars div int (length chord_names) + 1)) bars))"

definition add_chord_progression ::
  "message list \<Rightarrow> string list \<Rightarrow> int \<Rightarrow> int \<Rightarrow> int \<Rightarrow> exn + message list" where
  "add_chord_progression track chord_names bars vel time_offset =
     (case chord_sequence chord_names bars of
        Inl e \<Rightarrow> Inl e
      | Inr cs \<Rightarrow> chord_loop vel cs time_offset track)"

section \<open>Melody and bass rendering\<close>

text \<open>
  \<open>rhythm_pattern[i % len(rhythm_pattern)]\<close>: the modulo raises ZeroDivisionError on an
  empty pattern; otherwise the index is in range.
\<close>

definition rhythm_at :: "rat list \<Rightarrow> nat \<Rightarrow> exn + rat" where
  "rhythm_at rhythm_pattern i =
     (if length rhythm_pattern = 0 then Inl ZeroDivisionError
      else Inr (rhythm_pattern ! (i mod length rhythm_pattern)))"

text \<open>
  The loop of \<open>add_melody\<close> from index \<open>i\<close> on; the state is \<open>current_time\<close> and the track.
\<close>

fun melody_loop ::
  "int \<Rightarrow> rat list \<Rightarrow> nat \<Rightarrow> string list \<Rightarrow> int \<Rightarrow> message list \<Rightarrow> exn + message list" where
  "melody_loop vel rhythm_pattern i [] current_time track = Inr track"
| "melody_loop vel rhythm_pattern i (note_name # melody_notes) current_time track =
     (if note_name = ''rest''
      then (case rhythm_at rhythm_pattern i of
              Inl e \<Rightarrow> Inl e
            | Inr beats \<Rightarrow>
                melody_loop vel rhythm_pattern (i + 1) melody_notes
                  (current_time + beats_to_ticks beats) track)
      else (case note_name_to_midi note_name of
              Inl e \<Rightarrow> Inl e
            | Inr midi_note \<Rightarrow>
                (case rhythm_at rhythm_pattern i of
                   Inl e \<Rightarrow> Inl e
                 | Inr beats \<Rightarrow>
                     (case Message note_on 1 midi_note vel current_time of
                        Inl e \<Rightarrow> Inl e
                      | Inr m_on \<Rightarrow>
                          (case Message note_off 1 midi_note 0 (beats_to_ticks beats) of
                             Inl e \<Rightarrow> Inl e
                           | Inr m_off \<Rightarrow>
                               melody_loop vel rhythm_pattern (i + 1) melody_notes 0
                                 (track @ [m_on, m_off]))))))"

definition add_melody ::
  "message list \<Rightarrow> string list \<Rightarrow> rat list \<Rightarrow> int \<Rightarrow> int \<Rightarrow> exn + message list" where
  "add_melody track melody_notes rhythm_pattern vel time_offset =
     melody_loop vel rhythm_pattern 0 melody_notes time_offset track"

fun bass_loop :: "int \<Rightarrow> string list \<Rightarrow> int \<Rightarrow> message list \<Rightarrow> exn + message list" where
  "bass_loop vel [] current_time track = Inr track"
| "bass_loop vel (note_name # bass_notes) current_time track =
     (case note_name_to_midi note_name of
        Inl e \<Rightarrow> Inl e
      | Inr midi_note \<Rightarrow>
          (case Message note_on 2 midi_note vel current_time of
             Inl e \<Rightarrow> Inl e
           | Inr m_on \<Rightarrow>
               (case Message note_off 2 midi_note 0 (beats_to_ticks 4) of
                  Inl e \<Rightarrow> Inl e
                | Inr m_off \<Rightarrow> bass_loop vel bass_notes 0 (track @ [m_on, m_off]))))"

definition add_bass_line :: "message list \<Rightarrow> string list \<Rightarrow> int \<Rightarrow> int \<Rightarrow> exn + message list" where
  "add_bass_line track bass_notes vel time_offset = bass_loop vel bass_notes time_offset track"

section \<open>The section table\<close>

record section_entry =
  s_chords :: "string list"
  s_melody :: "string list"
  s_bass :: "string list"
  s_velocity :: int
  s_rhythm :: "rat list"

text \<open>The dictionary literal \<open>section_data\<close> of \<open>create_section\<close>, in the order it is written.\<close>

definition section_data :: "(string \<times> section_entry) list" where
  "section_data =
   [(''intro'',
     \<lparr>s_chords = py_repeat [''Dm'', ''Bb'', ''F'', ''C''] 2,
      s_melody = py_repeat [''D4'', ''F4'', ''G4'', ''F4'', ''D4'', ''C4'', ''D4'', ''D4''] 2,
      s_bass = py_repeat [''D2'', ''Bb1'', ''F1'', ''C2''] 2,
      s_velocity = 60,
      s_rhythm = [1/2, 1/2, 1/2, 1/2, 1/2, 1/2, 1, 1]\<rparr>),
    (''verse1'',
     \<lparr>s_chords = py_repeat [''Dm'', ''Bb'', ''F'', ''C'', ''Dm'', ''Bb'', ''F'', ''A7''] 2,
      s_melody = py_repeat [''D4'', ''F4'', ''G4'', ''F4'', ''D4'', ''C4'', ''D4'', ''D4'',
                            ''F4'', ''G4'', ''A4'', ''G4'', ''F4'', ''D4'', ''F4'', ''F4''] 1,
      s_bass = py_repeat [''D2'', ''Bb1'', ''F1'', ''C2'', ''D2'', ''Bb1'', ''F1'', ''A1''] 2,
      s_velocity = 65,
      s_rhythm = [1, 1/2, 1/2, 1, 1, 1/2, 1/2, 2]\<rparr>),
    (''pre_chorus1'',
     \<lparr>s_chords = [''Bb'', ''C'', ''Dm'', ''Dm'', ''Bb'', ''C'', ''F'', ''A7''],
      s_melody = [''Bb4'', ''A4'', ''G4'', ''F4'', ''G4'', ''A4'', ''Bb4'', ''C5'',
                  ''D5'', ''C5'', ''Bb4'', ''A4'', ''G4'', ''F4'', ''G4'', ''A4''],
      s_bass = [''Bb1'', ''C2'', ''D2'', ''D2'', ''Bb1'', ''C2'', ''F1'', ''A1''],
      s_velocity = 75,
      s_rhythm = [1/2, 1/2, 1/2, 1/2, 1/2, 1/2, 1, 1]\<rparr>),
    (''chorus1'',
     \<lparr>s_chords = py_repeat [''Dm'', ''Bb'', ''F'', ''C'', ''Gm'', ''Bb'', ''F'', ''A7''] 2,
      s_melody = py_repeat [''D5'', ''F5'', ''G5'', ''F5'', ''D5'', ''C5'', ''D5'', ''D5'',
                            ''Bb4'', ''C5'', ''D5'', ''F5'', ''G5'', ''A5'', ''F5'', ''D5''] 1,
      s_bass = py_repeat [''D2'', ''Bb1'', ''F1'', ''C2'', ''G1'', ''Bb1'', ''F1'', ''A1''] 2,
      s_velocity = 100,
      s_rhythm = [1, 1, 1/2, 1/2, 1, 1, 1, 1]\<rparr>),
    (''verse2'',
     \<lparr>s_chords = py_repeat [''Dm'', ''Bb'', ''F'', ''C'', ''Dm'', ''Bb'', ''F'', ''A7''] 2,
      s_melody = py_repeat [''D4'', ''F4'', ''G4'', ''F4'', ''D4'', ''C4'', ''D4'', ''D4'',
                            ''F4'', ''G4'', ''A4'', ''G4'', ''F4'', ''D4'', ''F4'', ''F4''] 1,
      s_bass = py_repeat [''D2'', ''Bb1'', ''F1'', ''C2'', ''D2'', ''Bb1'', ''F1'', ''A1''] 2,
      s_velocity = 70,
      s_rhythm = [1, 1/2, 1/2, 1, 1, 1/2, 1/2, 2]\<rparr>),
    (''pre_chorus2'',
     \<lparr>s_chords = [''Bb'', ''C'', ''Dm'', ''Dm'', ''Bb'', ''C'', ''F'', ''A7''],
      s_melody = [''Bb4'', ''A4'', ''G4'', ''F4'', ''G4'', ''A4'', ''Bb4'', ''C5'',
                  ''D5'', ''C5'', ''Bb4'', ''A4'', ''G4'', ''F4'', ''G4'', ''A4''],
      s_bass = [''Bb1'', ''C2'', ''D2'', ''D2'', ''Bb1'', ''C2'', ''F1'', ''A1''],
      s_velocity = 85,
      s_rhythm = [1/2, 1/2, 1/2, 1/2, 1/2, 1/2, 1, 1]\<rparr>),
    (''chorus2'',
     \<lparr>s_chords = py_repeat [''Dm'', ''Bb'', ''F'', ''C'', ''Gm'', ''Bb'', ''F'', ''A7''] 2,
      s_melody = py_repeat [''D5'', ''F5'', ''G5'', ''F5'', ''D5'', ''C5'', ''D5'', ''D5'',
                            ''Bb4'', ''C5'', ''D5'', ''F5'', ''G5'', ''A5'', ''F5'', ''D5''] 1,
      s_bass = py_repeat [''D2'', ''Bb1'', ''F1'', ''C2'', ''G1'', ''Bb1'', ''F1'', ''A1''] 2,
      s_velocity = 110,
      s_rhythm = [1, 1, 1/2, 1/2, 1, 1, 1, 1]\<rparr>),
    (''bridge'',
     \<lparr>s_chords = [''Bb'', ''F'', ''C'', ''Dm'', ''Bb'', ''F'', ''A7'', ''A7'',
                  ''Gm'', ''Bb'', ''C'', ''Dm''],
      s_melody = [''F5'', ''G5'', ''A5'', ''Bb5'', ''A5'', ''G5'', ''F5'', ''F5'',
                  ''A5'', ''G5'', ''F5'', ''D5'', ''F5'', ''G5'', ''A5'', ''Bb5''],
      s_bass = [''Bb1'', ''F1'', ''C2'', ''D2'', ''Bb1'', ''F1'', ''A1'', ''A1'',
                ''G1'', ''Bb1'', ''C2'', ''D2''],
      s_velocity = 95,
      s_rhythm = [1/2, 1/2, 1/2, 1/2, 1/2, 1/2, 1, 1]\<rparr>),
    (''final_chorus'',
     \<lparr>s_chords = py_repeat [''Dm'', ''Bb'', ''F'', ''C'', ''Gm'', ''Bb'', ''F'', ''A7''] 3,
      s_melody = py_repeat [''D5'', ''F5'', ''G5'', ''F5'', ''D5'', ''C5'', ''D5'', ''D5'',
                            ''Bb4'', ''C5'', ''D5'', ''F5'', ''G5'', ''A5'', ''F5'', ''D5''] 3,
      s_bass = py_repeat [''D2'', ''Bb1'', ''F1'', ''C2'', ''G1'', ''Bb1'', ''F1'', ''A1''] 3,
      s_velocity = 127,
      s_rhythm = [1, 1, 1/2, 1/2, 1, 1, 1, 1]\<rparr>),
    (''outro'',
     \<lparr>s_chords = [''Dm'', ''Bb'', ''F'', ''C'', ''Dm'', ''Dm''],
      s_melody = [''D5'', ''F5'', ''G5'', ''F5'', ''D5'', ''D5''],
      s_bass = [''D2'', ''Bb1'', ''F1'', ''C2'', ''D2'', ''D2''],
      s_velocity = 60,
      s_rhythm = [2, 2, 2, 2, 4, 4]\<rparr>)]"

text \<open>
  \<open>create_section\<close> returns \<open>section_data.get(section_name, section_data['intro'])\<close>.
  The subscript \<open>section_data['intro']\<close> is evaluated first and raises KeyError on a
  missing key. The parameters \<open>bars\<close> and \<open>start_time\<close> are not used by the body.
\<close>

definition create_section :: "string \<Rightarrow> int \<Rightarrow> int \<Rightarrow> exn + section_entry" where
  "create_section section_name bars start_time =
     (case map_of section_data ''intro'' of
        None \<Rightarrow> Inl KeyError
      | Some intro \<Rightarrow> Inr (dict_get (map_of section_data) section_name intro))"

section \<open>One round of the loop of \<open>generate_midi\<close>\<close>

text \<open>
  The body of \<open>for section_name, bars in self.structure\<close>: the state is the chord, melody
  and bass tracks and \<open>current_time\<close>, which the body sets to 0.
\<close>

definition section_step ::
  "(message list \<times> message list \<times> message list) \<times> int \<Rightarrow> string \<times> int \<Rightarrow>
   exn + ((message list \<times> message list \<times> message list) \<times> int)" where
  "section_step st sb =
     (case (st, sb) of
        (((chord_track, melody_track, bass_track), current_time), (section_name, bars)) \<Rightarrow>
          (case create_section section_name bars 0 of
             Inl e \<Rightarrow> Inl e
           | Inr sd \<Rightarrow>
               (let time_offset = (if section_name = ''intro'' then current_time else 0)
                in case add_chord_progression chord_track (s_chords sd) bars (s_velocity sd)
                          time_offset of
                     Inl e \<Rightarrow> Inl e
                   | Inr chord_track' \<Rightarrow>
                       (case add_melody melody_track (s_melody sd) (s_rhythm sd)
                               (min (s_velocity sd + 10) 127) time_offset of
                          Inl e \<Rightarrow> Inl e
                        | Inr melody_track' \<Rightarrow>
                            (case add_bass_line bass_track (s_bass sd)
                                    (max 50 (s_velocity sd - 15)) time_offset of
                               Inl e \<Rightarrow> Inl e
                             | Inr bass_track' \<Rightarrow>
                                 Inr ((chord_track', melody_track', bass_track'), 0))))))"

section \<open>Measures on event streams\<close>

text \<open>
  The definitions of this section are not part of the converter: they describe the
  streams it produces. \<open>mk_msg\<close> is the message a successful call of \<open>Message\<close> builds,
  \<open>total_time\<close> the sum of the delta-times of a stream, \<open>count_type\<close> the number of its
  messages of one type, and \<open>paired\<close> holds when the stream is a sequence of pairs, a
  \<open>note_on\<close> followed at once by the \<open>note_off\<close> of the same pitch and channel.
\<close>

definition mk_msg :: "msg_type \<Rightarrow> int \<Rightarrow> int \<Rightarrow> int \<Rightarrow> int \<Rightarrow> message" where
  "mk_msg ty ch n vel t = \<lparr>mtype = ty, channel = ch, pitch = n, velocity = vel, time = t\<rparr>"

definition valid_byte :: "int \<Rightarrow> bool" where
  "valid_byte v = (0 \<le> v \<and> v \<le> 127)"

definition total_time :: "message list \<Rightarrow> int" where
  "total_time ms = sum_list (map time ms)"



text \<open>
  The streams of the three renderers, written as plain lists: the messages of one chord
  that sound together, and the messages each loop appends when no call raises.
\<close>

fun simultaneous :: "msg_type \<Rightarrow> int \<Rightarrow> int list \<Rightarrow> int \<Rightarrow> message list" where
  "simultaneous ty vel [] t = []"
| "simultaneous ty vel (p # ps) t = mk_msg ty 0 p vel t # map (\<lambda>q. mk_msg ty 0 q vel 0) ps"

fun chord_events :: "int \<Rightarrow> string list \<Rightarrow> int \<Rightarrow> message list" where
  "chord_events vel [] cur = []"
| "chord_events vel (c # cs) cur =
     (case self_chords c of
        None \<Rightarrow> chord_events vel cs cur
      | Some ps \<Rightarrow> simultaneous note_on vel ps cur @ simultaneous note_off 0 ps (beats_to_ticks 4)
                    @ chord_events vel cs 0)"

definition midi_of :: "string \<Rightarrow> int" where
  "midi_of t = (case note_name_to_midi t of Inl e \<Rightarrow> 60 | Inr v \<Rightarrow> v)"

fun melody_events :: "int \<Rightarrow> rat list \<Rightarrow> nat \<Rightarrow> string list \<Rightarrow> int \<Rightarrow> message list" where
  "melody_events vel r i [] cur = []"
| "melody_events vel r i (n # ns) cur =
     (if n = ''rest''
      then melody_events vel r (i + 1) ns (cur + beats_to_ticks (r ! (i mod length r)))
      else mk_msg note_on 1 (midi_of n) vel cur
           # mk_msg note_off 1 (midi_of n) 0 (beats_to_ticks (r ! (i mod length r)))
           # melody_events vel r (i + 1) ns 0)"


text \<open>
  The melody of a section as \<open>generate_midi\<close> renders it, on an empty track with offset 0
  and velocity \<open>min(velocity + 10, 127)\<close>: the sum of its delta-times; and the sum of the
  section's rhythm sequence. \<open>table_entry_ok\<close> collects what the proofs need of an entry of
  the section table.
\<close>

definition section_melody_ticks :: "string \<Rightarrow> int \<Rightarrow> exn + int" where
  "section_melody_ticks section_name bars =
     (case create_section section_name bars 0 of
        Inl e \<Rightarrow> Inl e
      | Inr sd \<Rightarrow>
          (case add_melody [] (s_melody sd) (s_rhythm sd) (min (s_velocity sd + 10) 127) 0 of
             Inl e \<Rightarrow> Inl e
           | Inr evs \<Rightarrow> Inr (total_time evs)))"

definition section_rhythm_sum :: "string \<Rightarrow> int \<Rightarrow> exn + rat" where
  "section_rhythm_sum section_name bars =
     (case create_section section_name bars 0 of
        Inl e \<Rightarrow> Inl e
      | Inr sd \<Rightarrow> Inr (sum_list (s_rhythm sd)))"

definition table_entry_ok :: "section_entry \<Rightarrow> bool" where
  "table_entry_ok sd =
     (''rest'' \<notin> set (s_melody sd) \<and> s_rhythm sd \<noteq> [] \<and>
      list_all (\<lambda>q. of_int (beats_to_ticks q) = q * of_int ticks_per_beat) (s_rhythm sd))"

section \<open>Properties of the pitch resolver\<close>

lemma notes_range: "self_notes k = Some v \<Longrightarrow> 60 \<le> v \<and> v \<le> 71"
proof -
  assume "self_notes k = Some v"
  then have "(k, v) \<in> set
     [(''C'', 60), (''C#'', 61), (''Db'', 61), (''D'', 62), (''D#'', 63), (''Eb'', 63),
      (''E'', 64), (''F'', 65), (''F#'', 66), (''Gb'', 66), (''G'', 67), (''G#'', 68),
      (''Ab'', 68), (''A'', 69), (''A#'', 70), (''Bb'', 70), (''B'', 71)]"
    unfolding self_notes_def by (rule map_of_SomeD)
  then show ?thesis by auto
qed

lemma dict_get_notes_range: "60 \<le> dict_get self_notes k 60 \<and> dict_get self_notes k 60 \<le> 71"
  using notes_range [of k] by (cases "self_notes k") (auto simp: dict_get_def)

lemma note_name_to_midi_try_cases:
  "note_name_to_midi_try t = Inl ValueError \<or> note_name_to_midi_try t = Inl IndexError \<or>
   (\<exists>v. note_name_to_midi_try t = Inr v \<and> 0 \<le> v \<and> v \<le> 127)"
  by (auto simp: note_name_to_midi_try_def py_last_def py_int_def Let_def
           split: sum.splits if_splits)

lemma note_name_to_midi_Inr:
  "\<exists>v. note_name_to_midi t = Inr v \<and> valid_byte v"
proof -
  consider "t = [] \<or> t = ''rest''"
    | "\<not> (t = [] \<or> t = ''rest'')" "length t < 2"
    | "\<not> (t = [] \<or> t = ''rest'')" "\<not> length t < 2"
    by blast
  then show ?thesis
  proof cases
    case 1
    then show ?thesis by (simp add: note_name_to_midi_def valid_byte_def)
  next
    case 2
    then show ?thesis
      using dict_get_notes_range [of t] by (simp add: note_name_to_midi_def valid_byte_def)
  next
    case 3
    then show ?thesis
      using note_name_to_midi_try_cases [of t]
      by (auto simp: note_name_to_midi_def valid_byte_def)
  qed
qed

lemma note_name_to_midi_midi_of: "note_name_to_midi t = Inr (midi_of t)"
  using note_name_to_midi_Inr [of t] by (auto simp: midi_of_def)

lemma midi_of_valid: "valid_byte (midi_of t)"
  using note_name_to_midi_Inr [of t] by (auto simp: midi_of_def)

text \<open>
  C1. For every string token the pitch resolver returns a value: it never raises, and
  the pitch code it returns lies between 0 and 127.
\<close>

theorem note_name_to_midi_total:
  "\<exists>v. note_name_to_midi t = Inr v \<and> 0 \<le> v \<and> v \<le> 127"
  using note_name_to_midi_Inr [of t] by (simp add: valid_byte_def)

text \<open>
  C2 (amended). The pitch resolver returns 62 on "D4", 74 on "D5", 34 on "Bb1", 60 on "rest"
  and 60 on the empty token. The octave offset of "Bb1" is (1 - 4) * 12 = -36, so the
  value is 70 - 36 = 34.
\<close>

theorem note_name_to_midi_examples:
  "note_name_to_midi ''D4'' = Inr 62 \<and> note_name_to_midi ''D5'' = Inr 74 \<and>
   note_name_to_midi ''Bb1'' = Inr 34 \<and> note_name_to_midi ''rest'' = Inr 60 \<and>
   note_name_to_midi '''' = Inr 60"
  by code_simp

text \<open>
  C2 as stated, with the value 46 on "Bb1", does not hold.
\<close>

theorem note_name_to_midi_Bb1_counterexample:
  "\<not> (note_name_to_midi ''D4'' = Inr 62 \<and> note_name_to_midi ''D5'' = Inr 74 \<and>
       note_name_to_midi ''Bb1'' = Inr 46 \<and> note_name_to_midi ''rest'' = Inr 60 \<and>
       note_name_to_midi '''' = Inr 60)"
  by code_simp

lemma isdigit_not_rest: "isdigit (last t) \<Longrightarrow> t \<noteq> ''rest''"
  by (auto simp: isdigit_def)

text \<open>
  C9. Only the last character of a token is taken as the octave. For every token of two
  or more characters whose last character satisfies \<open>isdigit\<close>, the note name is the token
  without that character and the octave is the value of that character alone (a character
  that \<open>int\<close> rejects gives the default 60). So "C10" is the unknown note name "C1" in
  octave 0, and resolves to 60 + (0 - 4) * 12 = 12.
\<close>

theorem note_name_to_midi_last_digit:
  "(2 \<le> length t \<and> isdigit (last t) \<longrightarrow>
      note_name_to_midi t =
        (case py_int (last t) of
           Inl e \<Rightarrow> Inr 60
         | Inr octave \<Rightarrow>
             Inr (max 0 (min 127 (dict_get self_notes (butlast t) 60 + (octave - 4) * 12))))) \<and>
   butlast ''C10'' = ''C1'' \<and> self_notes ''C1'' = None \<and> py_int (last ''C10'') = Inr 0 \<and>
   note_name_to_midi ''C10'' = Inr 12"
proof -
  have "note_name_to_midi t =
        (case py_int (last t) of
           Inl e \<Rightarrow> Inr 60
         | Inr octave \<Rightarrow>
             Inr (max 0 (min 127 (dict_get self_notes (butlast t) 60 + (octave - 4) * 12))))"
    if len: "2 \<le> length t" and dig: "isdigit (last t)"
  proof -
    have ne: "t \<noteq> []" "t \<noteq> ''rest''" "\<not> length t < 2"
      using len isdigit_not_rest [OF dig] by auto
    have py: "py_int (last t) = Inl ValueError \<or> (\<exists>octave. py_int (last t) = Inr octave)"
      by (simp add: py_int_def Let_def)
    have tr: "note_name_to_midi_try t =
        (case py_int (last t) of
           Inl e \<Rightarrow> Inl e
         | Inr octave \<Rightarrow>
             Inr (max 0 (min 127 (dict_get self_notes (butlast t) 60 + (octave - 4) * 12))))"
      using ne(1) dig by (simp add: note_name_to_midi_try_def py_last_def Let_def split: sum.splits)
    have "note_name_to_midi t =
        (case note_name_to_midi_try t of
              Inl ValueError \<Rightarrow> Inr 60
            | Inl IndexError \<Rightarrow> Inr 60
            | Inl e \<Rightarrow> Inl e
            | Inr midi_note \<Rightarrow> Inr midi_note)"
      using ne by (simp add: note_name_to_midi_def)
    then show ?thesis
      using py by (auto simp: tr)
  qed
  moreover have "butlast ''C10'' = ''C1'' \<and> self_notes ''C1'' = None \<and>
     py_int (last ''C10'') = Inr 0 \<and> note_name_to_midi ''C10'' = Inr 12"
    by code_simp
  ultimately show ?thesis by blast
qed

theorem note_name_to_midi_last_digit_witness:
  "2 \<le> length ''A#7'' \<and> isdigit (last ''A#7'') \<and> note_name_to_midi ''A#7'' = Inr 106"
proof -
  have h: "2 \<le> length ''A#7'' \<and> isdigit (last ''A#7'')" by code_simp
  have "note_name_to_midi ''A#7'' =
        (case py_int (last ''A#7'') of
           Inl e \<Rightarrow> Inr 60
         | Inr octave \<Rightarrow>
             Inr (max 0 (min 127 (dict_get self_notes (butlast ''A#7'') 60 + (octave - 4) * 12))))"
    using note_name_to_midi_last_digit [of "''A#7''"] h by blast
  moreover have "py_int (last ''A#7'') = Inr 7" by code_simp
  moreover have "dict_get self_notes (butlast ''A#7'') 60 = 70" by code_simp
  ultimately show ?thesis using h by simp
qed

section \<open>The renderers and their streams\<close>

lemma Message_ok:
  "0 \<le> ch \<Longrightarrow> ch \<le> 15 \<Longrightarrow> valid_byte n \<Longrightarrow> valid_byte vel \<Longrightarrow> Message ty ch n vel t = Inr (mk_msg ty ch n vel t)"
  by (simp add: Message_def mk_msg_def valid_byte_def)


lemma simultaneous_zero: "simultaneous ty vel ps 0 = map (\<lambda>q. mk_msg ty 0 q vel 0) ps"
  by (cases ps) simp_all

lemma chord_notes_on_ok:
  "valid_byte vel \<Longrightarrow> list_all valid_byte ps \<Longrightarrow>
   chord_notes_on vel ps cur track = Inr (track @ simultaneous note_on vel ps cur, if ps = [] then cur else 0)"
proof (induction ps arbitrary: cur track)
  case Nil
  then show ?case by simp
next
  case (Cons p ps)
  then show ?case
    by (simp add: Message_ok simultaneous_zero)
qed

lemma chord_notes_off_ok:
  "list_all valid_byte ps \<Longrightarrow>
   chord_notes_off ps hold track = Inr (track @ simultaneous note_off 0 ps hold, if ps = [] then hold else 0)"
proof (induction ps arbitrary: hold track)
  case Nil
  then show ?case by simp
next
  case (Cons p ps)
  then show ?case
    by (simp add: Message_ok simultaneous_zero valid_byte_def)
qed

lemma chords_valid: "self_chords c = Some ps \<Longrightarrow> list_all valid_byte ps \<and> ps \<noteq> []"
proof -
  assume "self_chords c = Some ps"
  then have "(c, ps) \<in> set
     [(''Dm'', [62, 65, 69]), (''Bb'', [70, 62, 65]), (''F'', [65, 69, 60]),
      (''C'', [60, 64, 67]), (''Gm'', [67, 70, 62]), (''A7'', [69, 61, 64, 67])]"
    unfolding self_chords_def by (rule map_of_SomeD)
  then show ?thesis by (auto simp: valid_byte_def)
qed

lemma chord_loop_ok:
  "valid_byte vel \<Longrightarrow> chord_loop vel cs cur track = Inr (track @ chord_events vel cs cur)"
proof (induction cs arbitrary: cur track)
  case Nil
  then show ?case by simp
next
  case (Cons c cs)
  show ?case
  proof (cases "self_chords c")
    case None
    then show ?thesis using Cons by simp
  next
    case (Some ps)
    then have v: "list_all valid_byte ps" using chords_valid by blast
    show ?thesis
      using Some Cons by (simp add: chord_notes_on_ok [OF Cons.prems v] chord_notes_off_ok [OF v])
  qed
qed

lemma nth_concat_replicate:
  "i < n * length xs \<Longrightarrow> concat (replicate n xs) ! i = xs ! (i mod length xs)"
proof (induction n arbitrary: i)
  case 0
  then show ?case by simp
next
  case (Suc n)
  show ?case
  proof (cases "i < length xs")
    case True
    then show ?thesis by (simp add: nth_append)
  next
    case False
    then have "i - length xs < n * length xs" using Suc.prems by simp
    then have "concat (replicate n xs) ! (i - length xs) = xs ! ((i - length xs) mod length xs)"
      by (rule Suc.IH)
    moreover have "(i - length xs) mod length xs = i mod length xs"
      using False by (simp add: le_mod_geq)
    ultimately show ?thesis using False by (simp add: nth_append)
  qed
qed

lemma cyclic_sequence:
  assumes "xs \<noteq> []"
  shows "py_slice_to (py_repeat xs (b div int (length xs) + 1)) b =
         map (\<lambda>i. xs ! (i mod length xs)) [0..<nat b]"
proof (cases "0 \<le> b")
  case False
  then have "b div int (length xs) < 0"
    using assms by (simp add: div_neg_pos_less0)
  then have "nat (b div int (length xs) + 1) = 0" by simp
  then show ?thesis using False by (simp add: py_slice_to_def py_repeat_def)
next
  case True
  define L where "L = length xs"
  define n where "n = nat (b div int L + 1)"
  have Lpos: "0 < L" using assms by (simp add: L_def)
  have m: "b mod int L < int L" using Lpos by simp
  have eq: "b div int L * int L + b mod int L = b" by simp
  have "(b div int L + 1) * int L = b div int L * int L + int L" by (simp add: distrib_right)
  then have lt: "b < (b div int L + 1) * int L" using m eq by linarith
  have nonneg: "0 \<le> b div int L + 1" using True Lpos by (simp add: pos_imp_zdiv_nonneg_iff)
  have "int (n * L) = (b div int L + 1) * int L" using nonneg by (simp add: n_def)
  then have big: "nat b < n * L" using lt True by linarith
  have len: "length (concat (replicate n xs)) = n * L"
    by (induction n) (simp_all add: L_def)
  show ?thesis
  proof (rule nth_equalityI)
    show "length (py_slice_to (py_repeat xs (b div int (length xs) + 1)) b) =
          length (map (\<lambda>i. xs ! (i mod length xs)) [0..<nat b])"
      using True big len by (simp add: py_slice_to_def py_repeat_def n_def L_def)
  next
    fix i assume "i < length (py_slice_to (py_repeat xs (b div int (length xs) + 1)) b)"
    then have i: "i < nat b"
      using True by (simp add: py_slice_to_def)
    then have "i < n * length xs" using big by (simp add: L_def)
    then have "concat (replicate n xs) ! i = xs ! (i mod length xs)"
      by (rule nth_concat_replicate)
    then show "py_slice_to (py_repeat xs (b div int (length xs) + 1)) b ! i =
          map (\<lambda>i. xs ! (i mod length xs)) [0..<nat b] ! i"
      using True i by (simp add: py_slice_to_def py_repeat_def n_def L_def)
  qed
qed

lemma melody_loop_ok:
  "r \<noteq> [] \<Longrightarrow> valid_byte vel \<Longrightarrow>
   melody_loop vel r i ns cur track = Inr (track @ melody_events vel r i ns cur)"
proof (induction ns arbitrary: i cur track)
  case Nil
  then show ?case by simp
next
  case (Cons n ns)
  have z: "valid_byte 0" by (simp add: valid_byte_def)
  show ?case
    using Cons.prems
    by (simp add: Cons.IH rhythm_at_def note_name_to_midi_midi_of Message_ok midi_of_valid z)
qed

lemma melody_loop_empty_rhythm:
  "ns \<noteq> [] \<Longrightarrow> melody_loop vel [] i ns cur track = Inl ZeroDivisionError"
  by (cases ns) (simp_all add: rhythm_at_def note_name_to_midi_midi_of)





lemma sum_list_upt_shift:
  "sum_list (map f [0..<Suc n]) = (f 0 :: int) + sum_list (map (\<lambda>k. f (Suc k)) [0..<n])"
proof -
  have "[0..<Suc n] = 0 # map Suc [0..<n]"
    by (simp add: upt_conv_Cons map_Suc_upt del: upt_Suc)
  then show ?thesis by (simp add: o_def del: upt_Suc)
qed

lemma melody_events_time:
  "''rest'' \<notin> set ns \<Longrightarrow>
   total_time (melody_events vel r i ns cur) =
     (if ns = [] then 0 else cur) +
     sum_list (map (\<lambda>k. beats_to_ticks (r ! ((i + k) mod length r))) [0..<length ns])"
proof (induction ns arbitrary: i cur)
  case Nil
  then show ?case by (simp add: total_time_def)
next
  case (Cons n ns)
  have "total_time (melody_events vel r (i + 1) ns 0) =
     sum_list (map (\<lambda>k. beats_to_ticks (r ! ((i + 1 + k) mod length r))) [0..<length ns])"
    using Cons.IH [of "i + 1" 0] Cons.prems by simp
  moreover have "sum_list (map (\<lambda>k. beats_to_ticks (r ! ((i + k) mod length r))) [0..<length (n # ns)])
     = beats_to_ticks (r ! (i mod length r)) +
       sum_list (map (\<lambda>k. beats_to_ticks (r ! ((i + 1 + k) mod length r))) [0..<length ns])"
    using sum_list_upt_shift [of "\<lambda>k. beats_to_ticks (r ! ((i + k) mod length r))" "length ns"]
    by simp
  moreover have "n \<noteq> ''rest''" using Cons.prems by auto
  ultimately show ?case
    by (simp add: total_time_def mk_msg_def del: upt_Suc)
qed

section \<open>The section table and the melody of a section\<close>

lemma section_table_ok: "list_all table_entry_ok (map snd section_data)"
  by code_simp

lemma intro_in_table: "map_of section_data ''intro'' \<noteq> None"
  by code_simp

lemma create_section_in_table:
  "\<exists>sd. create_section section_name bars start_time = Inr sd \<and> sd \<in> set (map snd section_data)"
proof -
  obtain intro where i: "map_of section_data ''intro'' = Some intro"
    using intro_in_table by blast
  show ?thesis
  proof (cases "map_of section_data section_name")
    case None
    then show ?thesis using i map_of_SomeD [OF i]
      by (force simp: create_section_def dict_get_def)
  next
    case (Some sd)
    then show ?thesis using i map_of_SomeD [OF Some]
      by (force simp: create_section_def dict_get_def)
  qed
qed


lemma of_int_sum_list: "(of_int (sum_list (map f xs)) :: rat) = sum_list (map (\<lambda>x. of_int (f x)) xs)"
  by (induction xs) simp_all

lemma cycled_ticks:
  assumes "r \<noteq> []"
    and "list_all (\<lambda>q. of_int (beats_to_ticks q) = q * of_int ticks_per_beat) r"
  shows "(of_int (sum_list (map (\<lambda>k. beats_to_ticks (r ! ((i + k) mod length r))) [0..<n])) :: rat) =
         sum_list (map (\<lambda>k. r ! ((i + k) mod length r)) [0..<n]) * of_int ticks_per_beat"
proof -
  have "of_int (beats_to_ticks (r ! ((i + k) mod length r))) =
        r ! ((i + k) mod length r) * of_int ticks_per_beat" for k
  proof -
    have "r ! ((i + k) mod length r) \<in> set r" using assms(1) by simp
    then show ?thesis using assms(2) by (simp add: list_all_iff)
  qed
  then show ?thesis
    by (simp add: of_int_sum_list sum_list_mult_const del: upt_Suc)
qed

text \<open>
  C8. The melody of the "outro" section (six pitched tokens, rhythm 2, 2, 2, 2, 4, 4),
  rendered with offset 0, has delta-times that sum to (2+2+2+2+4+4) * 480 = 7680 ticks.
\<close>

theorem outro_melody_ticks:
  "map_sum id s_melody (create_section ''outro'' 8 0) =
     Inr [''D5'', ''F5'', ''G5'', ''F5'', ''D5'', ''D5''] \<and>
   map_sum id s_rhythm (create_section ''outro'' 8 0) = Inr [2, 2, 2, 2, 4, 4] \<and>
   section_melody_ticks ''outro'' 8 = Inr 7680 \<and>
   section_rhythm_sum ''outro'' 8 = Inr (2 + 2 + 2 + 2 + 4 + 4) \<and>
   (2 + 2 + 2 + 2 + 4 + 4) * ticks_per_beat = 7680 \<and> ticks_per_beat = 480"
  by code_simp

text \<open>
  C3 as stated does not hold: the melody of "intro" has 16 tokens and its rhythm 8 values,
  so the rhythm is used twice. The delta-times sum to 4800 ticks, and the sum of the
  rhythm sequence times 480 is 2400.
\<close>

theorem intro_melody_ticks_counterexample:
  "section_melody_ticks ''intro'' 8 = Inr 4800 \<and>
   section_rhythm_sum ''intro'' 8 = Inr 5 \<and>
   (4800 :: rat) \<noteq> 5 * of_int ticks_per_beat"
  by code_simp

text \<open>
  C3 (amended). For every section name (an unknown name gives the data of "intro"), the
  delta-times of the melody rendered with offset 0 sum to the sum, over the positions
  \<open>k\<close> of the melody, of the rhythm value at \<open>k mod len(rhythm)\<close>, times the ticks per beat:
  the rhythm sequence is cycled to the length of the melody.
\<close>

theorem section_melody_time:
  "0 \<le> vel \<and> vel \<le> 127 \<longrightarrow>
   (\<exists>sd evs. create_section section_name bars 0 = Inr sd \<and>
       add_melody [] (s_melody sd) (s_rhythm sd) vel 0 = Inr evs \<and>
       of_int (total_time evs) =
         sum_list (map (\<lambda>k. s_rhythm sd ! (k mod length (s_rhythm sd)))
                    [0..<length (s_melody sd)]) * of_int ticks_per_beat)"
proof
  assume v: "0 \<le> vel \<and> vel \<le> 127"
  then have vb: "valid_byte vel" by (simp add: valid_byte_def)
  obtain sd where sd: "create_section section_name bars 0 = Inr sd"
      and mem: "sd \<in> set (map snd section_data)"
    using create_section_in_table by blast
  have ok: "table_entry_ok sd"
    using section_table_ok mem by (auto simp: list_all_iff)
  then have r: "s_rhythm sd \<noteq> []"
    and nr: "''rest'' \<notin> set (s_melody sd)"
    and ex: "list_all (\<lambda>q. of_int (beats_to_ticks q) = q * of_int ticks_per_beat) (s_rhythm sd)"
    by (simp_all add: table_entry_ok_def)
  define evs where "evs = melody_events vel (s_rhythm sd) 0 (s_melody sd) 0"
  have run: "add_melody [] (s_melody sd) (s_rhythm sd) vel 0 = Inr evs"
    using melody_loop_ok [OF r vb, of 0 "s_melody sd" 0 "[]"] by (simp add: add_melody_def evs_def)
  have "total_time evs =
     sum_list (map (\<lambda>k. beats_to_ticks (s_rhythm sd ! ((0 + k) mod length (s_rhythm sd))))
                [0..<length (s_melody sd)])"
    using melody_events_time [OF nr, of vel "s_rhythm sd" 0 0] by (simp add: evs_def)
  then have "of_int (total_time evs) =
     sum_list (map (\<lambda>k. s_rhythm sd ! ((0 + k) mod length (s_rhythm sd)))
                [0..<length (s_melody sd)]) * of_int ticks_per_beat"
    using cycled_ticks [OF r ex, of 0 "length (s_melody sd)"] by simp
  then have "of_int (total_time evs) =
     sum_list (map (\<lambda>k. s_rhythm sd ! (k mod length (s_rhythm sd)))
                [0..<length (s_melody sd)]) * of_int ticks_per_beat"
    by simp
  with sd run show "\<exists>sd evs. create_section section_name bars 0 = Inr sd \<and>
       add_melody [] (s_melody sd) (s_rhythm sd) vel 0 = Inr evs \<and>
       of_int (total_time evs) =
         sum_list (map (\<lambda>k. s_rhythm sd ! (k mod length (s_rhythm sd)))
                    [0..<length (s_melody sd)]) * of_int ticks_per_beat"
    by blast
qed

theorem section_melody_time_witness:
  "(0::int) \<le> 70 \<and> (70::int) \<le> 127 \<and>
   (\<exists>sd evs. create_section ''intro'' 8 0 = Inr sd \<and>
       add_melody [] (s_melody sd) (s_rhythm sd) 70 0 = Inr evs \<and>
       of_int (total_time evs) =
         sum_list (map (\<lambda>k. s_rhythm sd ! (k mod length (s_rhythm sd)))
                    [0..<length (s_melody sd)]) * of_int ticks_per_beat)"
  using section_melody_time [of 70 "''intro''" 8] by simp

text \<open>
  C7. For every section name that is not a key of the section table, \<open>create_section\<close>
  returns the data of "intro", and one round of the rendering loop on that name gives
  the same three tracks as a round on "intro" with the same bar count and offset 0.
\<close>

theorem create_section_fallback:
  "section_name \<notin> fst ` set section_data \<longrightarrow>
   (\<exists>intro. map_of section_data ''intro'' = Some intro \<and>
      create_section section_name bars start_time = Inr intro \<and>
      create_section ''intro'' bars start_time = Inr intro) \<and>
   section_step (tracks, current_time) (section_name, bars) =
     section_step (tracks, 0) (''intro'', bars)"
proof
  assume out: "section_name \<notin> fst ` set section_data"
  then have none: "map_of section_data section_name = None"
    by (simp add: map_of_eq_None_iff)
  obtain intro where i: "map_of section_data ''intro'' = Some intro"
    using intro_in_table by blast
  have a: "create_section section_name bars st = Inr intro" for st
    using none i by (simp add: create_section_def dict_get_def)
  have b: "create_section ''intro'' bars st = Inr intro" for st
    using i by (simp add: create_section_def dict_get_def)
  have ne: "section_name \<noteq> ''intro''" using none i by auto
  obtain ct mt bt where t: "tracks = (ct, mt, bt)" by (cases tracks) auto
  have "section_step (tracks, current_time) (section_name, bars) =
        section_step (tracks, 0) (''intro'', bars)"
    unfolding section_step_def t using ne by (simp add: a b)
  with i a b show "(\<exists>intro. map_of section_data ''intro'' = Some intro \<and>
      create_section section_name bars start_time = Inr intro \<and>
      create_section ''intro'' bars start_time = Inr intro) \<and>
   section_step (tracks, current_time) (section_name, bars) =
     section_step (tracks, 0) (''intro'', bars)"
    by blast
qed

theorem create_section_fallback_witness:
  "''solo'' \<notin> fst ` set section_data \<and>
   create_section ''solo'' 8 0 = create_section ''intro'' 8 0 \<and>
   section_step (([], [], []), 0) (''solo'', 8) = section_step (([], [], []), 0) (''intro'', 8)"
proof -
  have h: "''solo'' \<notin> fst ` set section_data" by code_simp
  show ?thesis
    using h create_section_fallback [of "''solo''" 8 0 "([], [], [])" 0] by auto
qed

section \<open>The stream of the chord renderer\<close>

lemma simultaneous_kinds:
  "map (\<lambda>m. (mtype m, pitch m)) (simultaneous ty vel ps t) = map (Pair ty) ps"
  by (cases ps) (simp_all add: mk_msg_def)

lemma simultaneous_time: "total_time (simultaneous ty vel ps t) = (if ps = [] then 0 else t)"
proof (cases ps)
  case Nil
  then show ?thesis by (simp add: total_time_def)
next
  case (Cons p qs)
  have "sum_list (map time (map (\<lambda>q. mk_msg ty 0 q vel 0) qs)) = 0"
    by (induction qs) (simp_all add: mk_msg_def)
  then show ?thesis using Cons by (simp add: total_time_def mk_msg_def)
qed

lemma total_time_append: "total_time (xs @ ys) = total_time xs + total_time ys"
  by (simp add: total_time_def)

lemma chord_events_kinds:
  "map (\<lambda>m. (mtype m, pitch m)) (chord_events vel cs cur) =
   concat (map (\<lambda>c. case self_chords c of
                        None \<Rightarrow> []
                      | Some ps \<Rightarrow> map (Pair note_on) ps @ map (Pair note_off) ps) cs)"
proof (induction cs arbitrary: cur)
  case Nil
  show ?case by simp
next
  case (Cons c cs)
  show ?case
    by (cases "self_chords c") (simp_all add: Cons.IH simultaneous_kinds)
qed

lemma chord_events_time:
  "total_time (chord_events vel cs cur) =
   (if list_ex (\<lambda>c. self_chords c \<noteq> None) cs then cur else 0) +
   beats_to_ticks 4 * int (length (filter (\<lambda>c. self_chords c \<noteq> None) cs))"
proof (induction cs arbitrary: cur)
  case Nil
  show ?case by (simp add: total_time_def)
next
  case (Cons c cs)
  show ?case
  proof (cases "self_chords c")
    case None
    then show ?thesis using Cons.IH [of cur] by simp
  next
    case (Some ps)
    then have "ps \<noteq> []" using chords_valid by blast
    then show ?thesis
      using Some Cons.IH [of 0]
      by (simp add: total_time_append simultaneous_time algebra_simps)
  qed
qed

lemma chord_events_skip:
  "list_all (\<lambda>u. self_chords u = None) us \<Longrightarrow>
   chord_events vel (us @ cs) cur = chord_events vel cs cur"
  by (induction us) simp_all

lemma chord_events_first:
  assumes "list_all (\<lambda>u. self_chords u = None) us" and "self_chords c \<noteq> None"
  shows "\<exists>m ms. chord_events vel (us @ c # cs) cur = m # ms \<and> mtype m = note_on \<and> time m = cur"
proof -
  obtain ps where ps: "self_chords c = Some ps" using assms(2) by blast
  then have "ps \<noteq> []" using chords_valid by blast
  then obtain p qs where pq: "ps = p # qs" by (cases ps) auto
  have "chord_events vel (us @ c # cs) cur = chord_events vel (c # cs) cur"
    using assms(1) by (rule chord_events_skip)
  then show ?thesis using ps pq by (simp add: mk_msg_def)
qed

lemma chord_sequence_ok:
  "chord_names \<noteq> [] \<Longrightarrow>
   chord_sequence chord_names bars =
     Inr (map (\<lambda>i. chord_names ! (i mod length chord_names)) [0..<nat bars])"
  by (simp add: chord_sequence_def cyclic_sequence)

lemma add_chord_progression_ok:
  "chord_names \<noteq> [] \<Longrightarrow> valid_byte vel \<Longrightarrow> chord_sequence chord_names bars = Inr cs \<Longrightarrow>
   add_chord_progression track chord_names bars vel time_offset =
     Inr (track @ chord_events vel cs time_offset)"
  by (simp add: add_chord_progression_def chord_loop_ok)

text \<open>
  C4. For every non-empty sequence of chord names and every bar count, the chord
  renderer walks the sequence repeated cyclically and cut to \<open>bars\<close> names (none for a
  negative count). A name of the chord table adds one \<open>note_on\<close> per pitch of its chord and
  then one \<open>note_off\<close> per pitch; a name that is not in the table adds nothing.
\<close>

theorem add_chord_progression_cycle:
  "chord_names \<noteq> [] \<and> 0 \<le> vel \<and> vel \<le> 127 \<longrightarrow>
   (\<exists>cs evs. chord_sequence chord_names bars = Inr cs \<and>
      cs = map (\<lambda>i. chord_names ! (i mod length chord_names)) [0..<nat bars] \<and>
      length cs = nat bars \<and>
      add_chord_progression track chord_names bars vel time_offset = Inr (track @ evs) \<and>
      map (\<lambda>m. (mtype m, pitch m)) evs =
        concat (map (\<lambda>c. case self_chords c of
                             None \<Rightarrow> []
                           | Some ps \<Rightarrow> map (Pair note_on) ps @ map (Pair note_off) ps) cs))"
proof
  assume h: "chord_names \<noteq> [] \<and> 0 \<le> vel \<and> vel \<le> 127"
  define cs where "cs = map (\<lambda>i. chord_names ! (i mod length chord_names)) [0..<nat bars]"
  have s: "chord_sequence chord_names bars = Inr cs"
    using h by (simp add: chord_sequence_ok cs_def)
  have vb: "valid_byte vel" using h by (simp add: valid_byte_def)
  have len: "length cs = nat bars" by (simp add: cs_def)
  have run: "add_chord_progression track chord_names bars vel time_offset =
     Inr (track @ chord_events vel cs time_offset)"
    using h vb s by (simp add: add_chord_progression_ok)
  show "\<exists>cs evs. chord_sequence chord_names bars = Inr cs \<and>
      cs = map (\<lambda>i. chord_names ! (i mod length chord_names)) [0..<nat bars] \<and>
      length cs = nat bars \<and>
      add_chord_progression track chord_names bars vel time_offset = Inr (track @ evs) \<and>
      map (\<lambda>m. (mtype m, pitch m)) evs =
        concat (map (\<lambda>c. case self_chords c of
                             None \<Rightarrow> []
                           | Some ps \<Rightarrow> map (Pair note_on) ps @ map (Pair note_off) ps) cs)"
    using s len run chord_events_kinds [of vel cs time_offset] cs_def by blast
qed

theorem add_chord_progression_cycle_witness:
  "[''Dm'', ''Xx'', ''A7''] \<noteq> [] \<and> (0::int) \<le> 80 \<and> (80::int) \<le> 127 \<and>
   chord_sequence [''Dm'', ''Xx'', ''A7''] 5 = Inr [''Dm'', ''Xx'', ''A7'', ''Dm'', ''Xx''] \<and>
   (\<exists>evs. add_chord_progression [] [''Dm'', ''Xx'', ''A7''] 5 80 0 = Inr evs \<and>
      map (\<lambda>m. (mtype m, pitch m)) evs =
        [(note_on, 62), (note_on, 65), (note_on, 69), (note_off, 62), (note_off, 65), (note_off, 69),
         (note_on, 69), (note_on, 61), (note_on, 64), (note_on, 67),
         (note_off, 69), (note_off, 61), (note_off, 64), (note_off, 67),
         (note_on, 62), (note_on, 65), (note_on, 69), (note_off, 62), (note_off, 65), (note_off, 69)])"
proof -
  have h: "[''Dm'', ''Xx'', ''A7''] \<noteq> [] \<and> (0::int) \<le> 80 \<and> (80::int) \<le> 127" by simp
  from add_chord_progression_cycle [of "[''Dm'', ''Xx'', ''A7'']" 80 5 "[]" 0] h
  obtain cs evs where
    a: "chord_sequence [''Dm'', ''Xx'', ''A7''] 5 = Inr cs" and
    b: "cs = map (\<lambda>i. [''Dm'', ''Xx'', ''A7''] ! (i mod length [''Dm'', ''Xx'', ''A7''])) [0..<nat 5]" and
    c: "add_chord_progression [] [''Dm'', ''Xx'', ''A7''] 5 80 0 = Inr ([] @ evs)" and
    d: "map (\<lambda>m. (mtype m, pitch m)) evs =
        concat (map (\<lambda>c. case self_chords c of
                             None \<Rightarrow> []
                           | Some ps \<Rightarrow> map (Pair note_on) ps @ map (Pair note_off) ps) cs)"
    by blast
  have cs: "cs = [''Dm'', ''Xx'', ''A7'', ''Dm'', ''Xx'']"
    unfolding b by code_simp
  have k: "map (\<lambda>m. (mtype m, pitch m)) evs =
        [(note_on, 62), (note_on, 65), (note_on, 69), (note_off, 62), (note_off, 65), (note_off, 69),
         (note_on, 69), (note_on, 61), (note_on, 64), (note_on, 67),
         (note_off, 69), (note_off, 61), (note_off, 64), (note_off, 67),
         (note_on, 62), (note_on, 65), (note_on, 69), (note_off, 62), (note_off, 65), (note_off, 69)]"
    unfolding d cs by code_simp
  have x: "chord_sequence [''Dm'', ''Xx'', ''A7''] 5 = Inr [''Dm'', ''Xx'', ''A7'', ''Dm'', ''Xx'']"
    using a cs by simp
  have y: "add_chord_progression [] [''Dm'', ''Xx'', ''A7''] 5 80 0 = Inr evs"
    using c by simp
  show ?thesis
    by (intro conjI exI [of _ evs]) (simp_all add: x y k)
qed

lemma known_unknown_count:
  "int (length (filter (\<lambda>c. self_chords c \<noteq> None) cs)) =
   int (length cs) - int (length (filter (\<lambda>c. self_chords c = None) cs))"
  using sum_length_filter_compl [of "\<lambda>c. self_chords c = None" cs] by simp

text \<open>
  C10. A chord name that is not in the chord table is skipped without any effect on the
  time of the channel: the loop goes on with the same track and the same \<open>current_time\<close>.
  Its hold of one bar (1920 ticks) is never emitted, so the delta-times of the stream sum
  to one bar for each name of the sequence less one bar for each unknown name, plus the
  initial offset when some name is known; and the offset that is pending when unknown
  names come first is the delta-time of the first \<open>note_on\<close> of the next known chord.
\<close>

theorem unknown_chord_takes_no_time:
  "(self_chords chord = None \<longrightarrow>
      chord_loop vel (chord # chord_seq) current_time track =
      chord_loop vel chord_seq current_time track) \<and>
   beats_to_ticks 4 = 1920 \<and>
   (chord_names \<noteq> [] \<and> 0 \<le> vel \<and> vel \<le> 127 \<longrightarrow>
      (\<exists>cs evs. chord_sequence chord_names bars = Inr cs \<and>
         add_chord_progression track chord_names bars vel time_offset = Inr (track @ evs) \<and>
         total_time evs =
           (if list_ex (\<lambda>c. self_chords c \<noteq> None) cs then time_offset else 0) +
           beats_to_ticks 4 *
             (int (length cs) - int (length (filter (\<lambda>c. self_chords c = None) cs))) \<and>
         (\<forall>us k rest.
            cs = us @ k # rest \<and> list_all (\<lambda>u. self_chords u = None) us \<and>
            self_chords k \<noteq> None \<longrightarrow>
            (\<exists>m ms. evs = m # ms \<and> mtype m = note_on \<and> time m = time_offset))))"
proof (intro conjI impI)
  assume "self_chords chord = None"
  then show "chord_loop vel (chord # chord_seq) current_time track =
      chord_loop vel chord_seq current_time track"
    by simp
next
  show "beats_to_ticks 4 = 1920" by code_simp
next
  assume h: "chord_names \<noteq> [] \<and> 0 \<le> vel \<and> vel \<le> 127"
  then have ne: "chord_names \<noteq> []" and vb: "valid_byte vel" by (simp_all add: valid_byte_def)
  define cs where "cs = map (\<lambda>i. chord_names ! (i mod length chord_names)) [0..<nat bars]"
  define evs where "evs = chord_events vel cs time_offset"
  have s: "chord_sequence chord_names bars = Inr cs"
    using ne by (simp add: chord_sequence_ok cs_def)
  have run: "add_chord_progression track chord_names bars vel time_offset = Inr (track @ evs)"
    using add_chord_progression_ok [OF ne vb s] by (simp add: evs_def)
  have tt: "total_time evs =
           (if list_ex (\<lambda>c. self_chords c \<noteq> None) cs then time_offset else 0) +
           beats_to_ticks 4 *
             (int (length cs) - int (length (filter (\<lambda>c. self_chords c = None) cs)))"
    unfolding evs_def chord_events_time known_unknown_count ..
  have first: "\<forall>us k rest.
            cs = us @ k # rest \<and> list_all (\<lambda>u. self_chords u = None) us \<and>
            self_chords k \<noteq> None \<longrightarrow>
            (\<exists>m ms. evs = m # ms \<and> mtype m = note_on \<and> time m = time_offset)"
    unfolding evs_def using chord_events_first by blast
  show "\<exists>cs evs. chord_sequence chord_names bars = Inr cs \<and>
         add_chord_progression track chord_names bars vel time_offset = Inr (track @ evs) \<and>
         total_time evs =
           (if list_ex (\<lambda>c. self_chords c \<noteq> None) cs then time_offset else 0) +
           beats_to_ticks 4 *
             (int (length cs) - int (length (filter (\<lambda>c. self_chords c = None) cs))) \<and>
         (\<forall>us k rest.
            cs = us @ k # rest \<and> list_all (\<lambda>u. self_chords u = None) us \<and>
            self_chords k \<noteq> None \<longrightarrow>
            (\<exists>m ms. evs = m # ms \<and> mtype m = note_on \<and> time m = time_offset))"
    using s run tt first by blast
qed

theorem unknown_chord_takes_no_time_witness:
  "self_chords ''Xx'' = None \<and>
   chord_loop 80 [''Xx'', ''Dm''] 100 [] = chord_loop 80 [''Dm''] 100 [] \<and>
   [''Xx'', ''Dm'', ''Yy''] \<noteq> [] \<and> (0::int) \<le> 80 \<and> (80::int) \<le> 127 \<and>
   (\<exists>m ms. add_chord_progression [] [''Xx'', ''Dm'', ''Yy''] 3 80 100 = Inr (m # ms) \<and>
      total_time (m # ms) = 100 + 1920 * (3 - 2) \<and> mtype m = note_on \<and> time m = 100)"
proof -
  have x: "self_chords ''Xx'' = None" by code_simp
  have h: "[''Xx'', ''Dm'', ''Yy''] \<noteq> [] \<and> (0::int) \<le> 80 \<and> (80::int) \<le> 127" by simp
  note t = unknown_chord_takes_no_time [where chord = "''Xx''" and vel = 80 and
      chord_seq = "[''Dm'']" and current_time = 100 and track = "[]" and
      chord_names = "[''Xx'', ''Dm'', ''Yy'']" and bars = 3 and time_offset = 100]
  have a: "chord_loop 80 [''Xx'', ''Dm''] 100 [] = chord_loop 80 [''Dm''] 100 []"
    using mp [OF t [THEN conjunct1] x] .
  note t3 = t [THEN conjunct2, THEN conjunct2]
  from mp [OF t3 h] obtain cs evs where
    s: "chord_sequence [''Xx'', ''Dm'', ''Yy''] 3 = Inr cs" and
    run: "add_chord_progression [] [''Xx'', ''Dm'', ''Yy''] 3 80 100 = Inr ([] @ evs)" and
    tt: "total_time evs =
           (if list_ex (\<lambda>c. self_chords c \<noteq> None) cs then 100 else 0) +
           beats_to_ticks 4 *
             (int (length cs) - int (length (filter (\<lambda>c. self_chords c = None) cs)))" and
    first: "\<forall>us k rest.
            cs = us @ k # rest \<and> list_all (\<lambda>u. self_chords u = None) us \<and>
            self_chords k \<noteq> None \<longrightarrow>
            (\<exists>m ms. evs = m # ms \<and> mtype m = note_on \<and> time m = 100)"
    by (elim exE conjE) (rule that, assumption+)
  have "chord_sequence [''Xx'', ''Dm'', ''Yy''] 3 = Inr [''Xx'', ''Dm'', ''Yy'']" by code_simp
  then have cs: "cs = [''Xx'', ''Dm'', ''Yy'']" using s by simp
  have v: "(if list_ex (\<lambda>c. self_chords c \<noteq> None) [''Xx'', ''Dm'', ''Yy''] then 100 else 0) +
           beats_to_ticks 4 *
             (int (length [''Xx'', ''Dm'', ''Yy'']) -
              int (length (filter (\<lambda>c. self_chords c = None) [''Xx'', ''Dm'', ''Yy'']))) =
           100 + 1920 * (3 - 2)"
    by code_simp
  have tt': "total_time evs = 100 + 1920 * (3 - 2)"
    using tt v unfolding cs by simp
  have p: "cs = [''Xx''] @ ''Dm'' # [''Yy''] \<and> list_all (\<lambda>u. self_chords u = None) [''Xx''] \<and>
           self_chords ''Dm'' \<noteq> None"
    unfolding cs by code_simp
  from first [rule_format, OF p] obtain m ms
    where m: "evs = m # ms" "mtype m = note_on" "time m = 100"
    by (elim exE conjE) (rule that, assumption+)
  have run': "add_chord_progression [] [''Xx'', ''Dm'', ''Yy''] 3 80 100 = Inr (m # ms)"
    using run m(1) by simp
  have tt'': "total_time (m # ms) = 100 + 1920 * (3 - 2)" using tt' m(1) by simp
  show ?thesis
    using x a h run' tt'' m(2,3)
    by (intro conjI exI [of _ m] exI [of _ ms]) simp_all
qed

section \<open>The streams of the melody and bass renderers\<close>



section \<open>Exceptions of the renderers\<close>






end
